theory Spec2Isabelle
  imports
    Complex_Main
    "HOL-Library.Char_ord"
    "HOL-Library.List_Lexorder"
    "HOL-Library.AList"
    "HOL-Library.Multiset"
begin

section \<open>Sales and pricing dashboard: the tables and what is computed from them\<close>

text \<open>
  The program (\<^verbatim>\<open>main-application.py\<close>) fetches two CSV tables, narrows them
  (\<^verbatim>\<open>prepare_data\<close>), computes the views of a four-panel dashboard
  (\<^verbatim>\<open>create_dashboard\<close>) and writes five summary figures to a text file
  (\<^verbatim>\<open>generate_insights\<close>). The tables are pandas data frames; the model keeps what
  the program relies on:
  \<^item> a raw frame is an ordered list of named columns of dynamically typed cells, with
    distinct column names (the CSV reader renames duplicates), and the rows are numbered
    from 0 (the default row index);
  \<^item> a prepared table is read through typed rows, one record per row; a column of the
    order table may miss values, and the views leave such rows out as pandas does;
  \<^item> amounts are float64 values, modelled by their exact real value; what floating-point
    arithmetic returns is written out where it is exact and is a parameter elsewhere;
  \<^item> an exception is a value of \<open>error\<close>, returned as \<open>Inl\<close>.
\<close>

subsection \<open>Exceptions\<close>

datatype error =
  KeyError "string list"   \<comment> \<open>the column names that are not in the frame\<close>
  | DateParseError         \<comment> \<open>\<^verbatim>\<open>pd.to_datetime\<close> could not convert the column\<close>
  | ValueError             \<comment> \<open>\<^verbatim>\<open>idxmax\<close> of an empty column\<close>

subsection \<open>Calendar dates and their rendering\<close>

record timestamp =
  ts_year :: nat
  ts_month :: nat
  ts_day :: nat

definition digit_char :: "nat \<Rightarrow> char" where
  "digit_char d = ''0123456789'' ! (d mod 10)"

fun decimal :: "nat \<Rightarrow> string" where
  "decimal n = (if n < 10 then [digit_char n] else decimal (n div 10) @ [digit_char n])"

declare decimal.simps [simp del]

definition zfill :: "nat \<Rightarrow> string \<Rightarrow> string" where
  "zfill w s = replicate (w - length s) (CHR ''0'') @ s"

text \<open>\<^verbatim>\<open>.dt.strftime('%Y-%m')\<close>: the year on four digits, a dash, the month on two.\<close>

definition strftime_Ym :: "timestamp \<Rightarrow> string" where
  "strftime_Ym t = zfill 4 (decimal (ts_year t)) @ ''-'' @ zfill 2 (decimal (ts_month t))"

subsection \<open>Raw frames and the preparation step\<close>

datatype cell = CInt int | CNum real | CStr string | CDate timestamp

type_synonym frame = "(string \<times> cell list) list"

text \<open>\<^verbatim>\<open>df[c]\<close>: the column, or \<^verbatim>\<open>KeyError\<close>.\<close>

definition column :: "frame \<Rightarrow> string \<Rightarrow> error + cell list" where
  "column df c = (case map_of df c of None \<Rightarrow> Inl (KeyError [c]) | Some col \<Rightarrow> Inr col)"

text \<open>\<^verbatim>\<open>df[c] = col\<close>: replaces the column where it stands, or appends a new one.\<close>

definition set_column :: "frame \<Rightarrow> string \<Rightarrow> cell list \<Rightarrow> frame" where
  "set_column df c col = AList.update c col df"

text \<open>\<^verbatim>\<open>df[[c1, ..., cn]]\<close>: a new frame of these columns in this order, or
  \<^verbatim>\<open>KeyError\<close> with the names that are missing.\<close>

definition select_columns :: "frame \<Rightarrow> string list \<Rightarrow> error + frame" where
  "select_columns df cs =
     (case filter (\<lambda>c. map_of df c = None) cs of
        [] \<Rightarrow> Inr (map (\<lambda>c. (c, case map_of df c of Some col \<Rightarrow> col | None \<Rightarrow> [])) cs)
      | m # ms \<Rightarrow> Inl (KeyError (m # ms)))"

definition is_datetime :: "cell \<Rightarrow> bool" where
  "is_datetime c = (case c of CDate _ \<Rightarrow> True | _ \<Rightarrow> False)"

text \<open>
  \<^verbatim>\<open>pd.to_datetime(col)\<close>: a column that already holds dates is returned as it is; any
  other column goes through the library's conversion, which is a parameter \<open>conv\<close> of the
  model (\<open>None\<close> when it rejects the column).
\<close>

definition to_datetime :: "(cell list \<Rightarrow> cell list option) \<Rightarrow> cell list \<Rightarrow> error + cell list" where
  "to_datetime conv col =
     (if list_all is_datetime col then Inr col
      else case conv col of None \<Rightarrow> Inl DateParseError | Some dates \<Rightarrow> Inr dates)"

definition sales_columns :: "string list" where
  "sales_columns = [''SalesOrderID'', ''OrderDate'', ''TotalDue'', ''Status'', ''CustomerID'']"

definition product_columns :: "string list" where
  "product_columns = [''ProductID'', ''Name'', ''ListPrice'', ''ProductLine'']"

text \<open>
  The caller passes two frame objects. The result records what the caller's two objects
  hold after the call and what the call returned (or raised).
\<close>

record prepared =
  sales_arg :: frame
  product_arg :: frame
  returned :: "error + frame \<times> frame"

definition prepare_data :: "(cell list \<Rightarrow> cell list option) \<Rightarrow> frame \<Rightarrow> frame \<Rightarrow> prepared" where
  "prepare_data conv sales_data product_data =
     (case column sales_data ''OrderDate'' of
        Inl e \<Rightarrow> \<lparr>sales_arg = sales_data, product_arg = product_data, returned = Inl e\<rparr>
      | Inr col \<Rightarrow>
          (case to_datetime conv col of
             Inl e \<Rightarrow> \<lparr>sales_arg = sales_data, product_arg = product_data, returned = Inl e\<rparr>
           | Inr dates \<Rightarrow>
               (let sales_data' = set_column sales_data ''OrderDate'' dates in
                case select_columns sales_data' sales_columns of
                  Inl e \<Rightarrow> \<lparr>sales_arg = sales_data', product_arg = product_data, returned = Inl e\<rparr>
                | Inr sales_out \<Rightarrow>
                    (case select_columns product_data product_columns of
                       Inl e \<Rightarrow>
                         \<lparr>sales_arg = sales_data', product_arg = product_data, returned = Inl e\<rparr>
                     | Inr product_out \<Rightarrow>
                         \<lparr>sales_arg = sales_data', product_arg = product_data,
                          returned = Inr (sales_out, product_out)\<rparr>))))"

text \<open>The prepared schema: the columns of the narrowed tables, the order dates parsed.\<close>

definition prepared_sales :: "frame \<Rightarrow> bool" where
  "prepared_sales df =
     (map fst df = sales_columns \<and>
      (case map_of df ''OrderDate'' of None \<Rightarrow> False | Some col \<Rightarrow> list_all is_datetime col))"

definition prepared_products :: "frame \<Rightarrow> bool" where
  "prepared_products df = (map fst df = product_columns)"

text \<open>A sample conversion, for running the model: ISO dates \<^verbatim>\<open>YYYY-MM-DD\<close>.\<close>

fun first_index :: "('a \<Rightarrow> bool) \<Rightarrow> 'a list \<Rightarrow> nat" where
  "first_index P [] = 0"
| "first_index P (x # xs) = (if P x then 0 else Suc (first_index P xs))"

definition is_digit :: "char \<Rightarrow> bool" where
  "is_digit c = (c \<in> set ''0123456789'')"

definition digit_value :: "char \<Rightarrow> nat" where
  "digit_value c = first_index (\<lambda>d. d = c) ''0123456789''"

definition parse_iso_date :: "string \<Rightarrow> timestamp option" where
  "parse_iso_date s =
     (case s of
        [y1, y2, y3, y4, s1, m1, m2, s2, d1, d2] \<Rightarrow>
          (if list_all is_digit [y1, y2, y3, y4, m1, m2, d1, d2] \<and> s1 = CHR ''-'' \<and> s2 = CHR ''-''
           then Some \<lparr>ts_year = 1000 * digit_value y1 + 100 * digit_value y2
                                  + 10 * digit_value y3 + digit_value y4,
                      ts_month = 10 * digit_value m1 + digit_value m2,
                      ts_day = 10 * digit_value d1 + digit_value d2\<rparr>
           else None)
      | _ \<Rightarrow> None)"

fun iso_conv :: "cell list \<Rightarrow> cell list option" where
  "iso_conv [] = Some []"
| "iso_conv (c # cs) =
     (case (case c of CDate d \<Rightarrow> Some d | CStr s \<Rightarrow> parse_iso_date s | _ \<Rightarrow> None) of
        None \<Rightarrow> None
      | Some d \<Rightarrow> (case iso_conv cs of None \<Rightarrow> None | Some ds \<Rightarrow> Some (CDate d # ds)))"

subsection \<open>Floating-point numbers\<close>

text \<open>
  A number column holds float64 values: a finite value is modelled by its exact real
  value, negative zero, the two infinities and \<^verbatim>\<open>nan\<close> are values of their own, and
  \<^verbatim>\<open>nan\<close> is also what a missing entry of a number column is.
\<close>

datatype f64 = Fin real | NegZero | PosInf | NegInf | NaN


definition fin_val :: "f64 \<Rightarrow> real" where
  "fin_val v = (case v of Fin r \<Rightarrow> r | _ \<Rightarrow> 0)"

definition is_int :: "real \<Rightarrow> bool" where
  "is_int r = (of_int \<lfloor>r\<rfloor> = r)"

text \<open>The entries of a column that are not missing (\<^verbatim>\<open>skipna\<close>).\<close>

definition present :: "f64 list \<Rightarrow> f64 list" where
  "present col = filter (\<lambda>v. v \<noteq> NaN) col"

text \<open>
  What the library computes in floating point is modelled exactly where the result does
  not depend on how it is computed, and is a parameter of the model elsewhere:
  \<^item> when the values are integers whose absolute values add up to at most \<open>2^53\<close>, every
    partial sum is such an integer and a float64, so the sum is exact in whatever order
    and with whatever compensation the additions are made; any other sum is what the
    library's summation returns (\<open>column_sum\<close> for \<^verbatim>\<open>Series.sum\<close> and
    \<^verbatim>\<open>Series.mean\<close>, \<open>group_sum\<close> for the sum of \<^verbatim>\<open>groupby\<close>);
  \<^item> a quotient that is a multiple of \<open>1/1024\<close> of magnitude at most \<open>2^43\<close> is a float64
    and the division is exact; any other quotient is rounded to a float64 (\<open>nearest\<close>,
    where \<open>None\<close> stands for negative zero).
\<close>

record float_ops =
  column_sum :: "f64 list \<Rightarrow> f64"
  group_sum :: "f64 list \<Rightarrow> f64"
  nearest :: "real \<Rightarrow> real option"

definition exact_vals :: "f64 list \<Rightarrow> bool" where
  "exact_vals vs =
     (list_all (\<lambda>v. case v of Fin r \<Rightarrow> is_int r | _ \<Rightarrow> False) vs
      \<and> sum_list (map (\<lambda>v. \<bar>fin_val v\<bar>) vs) \<le> 2 ^ 53)"

text \<open>\<^verbatim>\<open>.sum()\<close>: the sum of the entries that are not missing, 0 when there is none.\<close>

definition nansum :: "(f64 list \<Rightarrow> f64) \<Rightarrow> f64 list \<Rightarrow> f64" where
  "nansum inexact col =
     (let vs = present col
      in if exact_vals vs then Fin (sum_list (map fin_val vs)) else inexact vs)"

definition exact_quotient :: "real \<Rightarrow> bool" where
  "exact_quotient q = (is_int (q * 1024) \<and> \<bar>q\<bar> \<le> 2 ^ 43)"

text \<open>The division of a sum by a count of at least 1; an infinite or undefined sum
  stays what it is.\<close>

definition divide_count :: "(real \<Rightarrow> real option) \<Rightarrow> f64 \<Rightarrow> nat \<Rightarrow> f64" where
  "divide_count rnd v n =
     (case v of
        Fin s \<Rightarrow>
          (let q = s / real n
           in if exact_quotient q then Fin q
              else (case rnd q of Some r \<Rightarrow> Fin r | None \<Rightarrow> NegZero))
      | _ \<Rightarrow> v)"

text \<open>\<^verbatim>\<open>.mean()\<close>: the sum of the entries that are not missing divided by their number,
  \<^verbatim>\<open>nan\<close> when there is none.\<close>

definition nanmean :: "float_ops \<Rightarrow> f64 list \<Rightarrow> f64" where
  "nanmean ops col =
     (let vs = present col
      in if vs = [] then NaN
         else divide_count (nearest ops) (nansum (column_sum ops) col) (length vs))"

subsection \<open>Prepared tables as typed rows\<close>

text \<open>
  A row of the order table: any of its columns may miss its value (\<open>None\<close>, and
  \<^verbatim>\<open>nan\<close> for the amount). A row of the product table holds a value in every column.
\<close>

record order_row =
  sales_order_id :: "int option"
  order_date :: "timestamp option"
  total_due :: f64
  status :: "string option"
  customer_id :: "int option"

record product_row =
  product_id :: int
  name :: string
  list_price :: real
  product_line :: string

text \<open>The values of a column that are not missing (\<^verbatim>\<open>dropna\<close>).\<close>

fun values_of :: "'a option list \<Rightarrow> 'a list" where
  "values_of [] = []"
| "values_of (None # xs) = values_of xs"
| "values_of (Some x # xs) = x # values_of xs"

subsection \<open>The views of the dashboard\<close>

text \<open>
  \<^verbatim>\<open>groupby(key).agg({'TotalDue': 'sum', 'SalesOrderID': 'count'}).reset_index()\<close>:
  the rows whose key is missing are left out; there is one row per distinct key, the keys
  in ascending order, with the sum of the amounts of the group and the number of its rows
  that have an order id.
\<close>

definition month_key :: "order_row \<Rightarrow> string option" where
  "month_key r = map_option strftime_Ym (order_date r)"

definition group_keys :: "string option list \<Rightarrow> string list" where
  "group_keys keys = sort (remdups (values_of keys))"

definition monthly_sales :: "float_ops \<Rightarrow> order_row list \<Rightarrow> (string \<times> f64 \<times> nat) list" where
  "monthly_sales ops sales_data =
     map (\<lambda>k. let grp = filter (\<lambda>r. month_key r = Some k) sales_data
               in (k, nansum (group_sum ops) (map total_due grp),
                   length (values_of (map sales_order_id grp))))
         (group_keys (map month_key sales_data))"

text \<open>
  \<^verbatim>\<open>value_counts()\<close>: the missing values are left out; the number of rows per distinct
  value, the larger count first, equal counts in the order of first appearance.
\<close>

definition value_counts :: "'a option list \<Rightarrow> ('a \<times> nat) list" where
  "value_counts col =
     (let xs = values_of col
      in sort_key (\<lambda>(v, c). - int c) (map (\<lambda>v. (v, count_list xs v)) (rev (remdups (rev xs)))))"

definition status_dist :: "order_row list \<Rightarrow> (string \<times> nat) list" where
  "status_dist sales_data = value_counts (map status sales_data)"

text \<open>
  \<^verbatim>\<open>nlargest(n, 'ListPrice')\<close> (with the default \<^verbatim>\<open>keep='first'\<close>): the first \<open>n\<close> rows
  in descending order of price, a stable sort, so that of two rows of equal price the
  earlier one comes first. Each row keeps its row number.
\<close>

definition nlargest :: "nat \<Rightarrow> product_row list \<Rightarrow> (nat \<times> product_row) list" where
  "nlargest n product_data =
     take n (sort_key (\<lambda>p. - list_price (snd p)) (enumerate 0 product_data))"

definition top_products :: "product_row list \<Rightarrow> (nat \<times> product_row) list" where
  "top_products product_data = nlargest 10 product_data"

text \<open>The order of \<open>nlargest\<close>: a larger price first, then a smaller row number.\<close>

definition price_desc :: "nat \<times> product_row \<Rightarrow> nat \<times> product_row \<Rightarrow> bool" where
  "price_desc a b =
     (list_price (snd b) < list_price (snd a) \<or>
      list_price (snd a) = list_price (snd b) \<and> fst a < fst b)"

subsection \<open>Insight extraction\<close>

record insights =
  total_sales :: f64
  total_orders :: nat
  avg_order_value :: f64
  avg_product_price :: f64
  most_expensive_product :: string

text \<open>\<^verbatim>\<open>.idxmax()\<close>: the row number of the first maximum; raises on an empty column.\<close>

definition idxmax :: "real list \<Rightarrow> error + nat" where
  "idxmax xs =
     (case xs of
        [] \<Rightarrow> Inl ValueError
      | x # rest \<Rightarrow> Inr (first_index (\<lambda>v. v = fold max rest x) xs))"

text \<open>\<^verbatim>\<open>product_data.loc[i, 'Name']\<close>: the name in the row numbered \<open>i\<close>.\<close>

definition loc_name :: "product_row list \<Rightarrow> nat \<Rightarrow> error + string" where
  "loc_name product_data i =
     (if i < length product_data then Inr (name (product_data ! i)) else Inl (KeyError [decimal i]))"

text \<open>The dictionary \<^verbatim>\<open>insights\<close>, its entries evaluated in the order of the source.\<close>

definition insights_dict :: "float_ops \<Rightarrow> order_row list \<Rightarrow> product_row list \<Rightarrow> error + insights" where
  "insights_dict ops sales_data product_data =
     (let ts = nansum (column_sum ops) (map total_due sales_data);
          n = length sales_data;
          aov = nanmean ops (map total_due sales_data);
          app = nanmean ops (map (\<lambda>p. Fin (list_price p)) product_data)
      in case idxmax (map list_price product_data) of
           Inl e \<Rightarrow> Inl e
         | Inr i \<Rightarrow>
             (case loc_name product_data i of
                Inl e \<Rightarrow> Inl e
              | Inr nm \<Rightarrow>
                  Inr \<lparr>total_sales = ts, total_orders = n, avg_order_value = aov,
                       avg_product_price = app, most_expensive_product = nm\<rparr>))"

text \<open>Thousands separators: a comma before every group of three digits, from the right.\<close>

fun commas_rev :: "string \<Rightarrow> string" where
  "commas_rev (a # b # c # d # ds) = a # b # c # CHR '','' # commas_rev (d # ds)"
| "commas_rev ds = ds"

definition group_thousands :: "string \<Rightarrow> string" where
  "group_thousands ds = rev (commas_rev (rev ds))"

text \<open>\<^verbatim>\<open>f"{n:,}"\<close> for a count.\<close>

definition format_count :: "nat \<Rightarrow> string" where
  "format_count n = group_thousands (decimal n)"

definition round_half_even :: "real \<Rightarrow> int" where
  "round_half_even q =
     (let f = \<lfloor>q\<rfloor>; r = q - of_int f
      in if r < 1 / 2 then f else if 1 / 2 < r then f + 1 else if even f then f else f + 1)"

text \<open>
  \<^verbatim>\<open>f"{x:,.2f}"\<close> for a finite float64: its exact value rounded to two decimals, a tie
  (which the exact value of a float64 seldom is) to the even digit.
\<close>

definition format_fixed :: "real \<Rightarrow> string" where
  "format_fixed x =
     (let cents = nat (round_half_even (\<bar>x\<bar> * 100))
      in (if x < 0 then ''-'' else []) @ group_thousands (decimal (cents div 100))
         @ ''.'' @ zfill 2 (decimal (cents mod 100)))"

text \<open>\<^verbatim>\<open>f"{x:,.2f}"\<close> for any float64: the values that are not finite are printed by name.\<close>

definition format_amount :: "f64 \<Rightarrow> string" where
  "format_amount v =
     (case v of
        Fin x \<Rightarrow> format_fixed x
      | NegZero \<Rightarrow> ''-0.00''
      | PosInf \<Rightarrow> ''inf''
      | NegInf \<Rightarrow> ''-inf''
      | NaN \<Rightarrow> ''nan'')"

definition newline :: string where
  "newline = [CHR 0x0A]"

text \<open>The text written to \<^verbatim>\<open>insights.txt\<close>: the six \<^verbatim>\<open>f.write\<close> calls in order.\<close>

definition insights_text :: "insights \<Rightarrow> string" where
  "insights_text ins =
     ''Key Business Insights:'' @ newline @ newline
     @ ''Total Sales: $'' @ format_amount (total_sales ins) @ newline
     @ ''Total Orders: '' @ format_count (total_orders ins) @ newline
     @ ''Average Order Value: $'' @ format_amount (avg_order_value ins) @ newline
     @ ''Average Product Price: $'' @ format_amount (avg_product_price ins) @ newline
     @ ''Most Expensive Product: '' @ most_expensive_product ins @ newline"

text \<open>
  The file system is a map from paths to contents. The dictionary is built before the
  file is opened, so an exception leaves the file system as it was.
\<close>

type_synonym files = "string \<rightharpoonup> string"

definition generate_insights ::
  "float_ops \<Rightarrow> files \<Rightarrow> order_row list \<Rightarrow> product_row list \<Rightarrow> error + files" where
  "generate_insights ops fs sales_data product_data =
     (case insights_dict ops sales_data product_data of
        Inl e \<Rightarrow> Inl e
      | Inr ins \<Rightarrow> Inr (fs(''insights.txt'' \<mapsto> insights_text ins)))"





subsection \<open>Sample tables\<close>

text \<open>
  A sample of the library parameters, for running the model on tables whose sums and
  quotients are exact: there the parameters are not consulted.
\<close>

definition sample_ops :: float_ops where
  "sample_ops = \<lparr>column_sum = (\<lambda>vs. NaN), group_sum = (\<lambda>vs. NaN), nearest = (\<lambda>q. Some q)\<rparr>"

definition order_of :: "int \<Rightarrow> nat \<Rightarrow> nat \<Rightarrow> nat \<Rightarrow> real \<Rightarrow> string \<Rightarrow> int \<Rightarrow> order_row" where
  "order_of i y m d due st cust =
     \<lparr>sales_order_id = Some i, order_date = Some \<lparr>ts_year = y, ts_month = m, ts_day = d\<rparr>,
      total_due = Fin due, status = Some st, customer_id = Some cust\<rparr>"

definition product_of :: "int \<Rightarrow> string \<Rightarrow> real \<Rightarrow> string \<Rightarrow> product_row" where
  "product_of i nm p pl = \<lparr>product_id = i, name = nm, list_price = p, product_line = pl\<rparr>"

definition three_orders :: "order_row list" where
  "three_orders =
     [order_of 1 2023 1 15 100 ''Shipped'' 7, order_of 2 2023 1 20 50 ''Shipped'' 8,
      order_of 3 2023 2 1 75 ''Cancelled'' 7]"

text \<open>The same three orders, the second without its order date and its status, and two
  orders without a total due.\<close>

definition orders_with_gaps :: "order_row list" where
  "orders_with_gaps =
     [order_of 1 2023 1 15 100 ''Shipped'' 7,
      (order_of 2 2023 1 20 50 ''Shipped'' 8)\<lparr>order_date := None, status := None\<rparr>,
      order_of 3 2023 2 1 75 ''Cancelled'' 7]"


definition four_products :: "product_row list" where
  "four_products =
     [product_of 1 ''A'' 10 ''R'', product_of 2 ''B'' 999 ''M'', product_of 3 ''C'' 5 ''R'',
      product_of 4 ''D'' 500 ''T'']"

definition raw_sales :: frame where
  "raw_sales =
     [(''SalesOrderID'', [CInt 1]), (''RevisionNumber'', [CInt 8]),
      (''OrderDate'', [CStr ''2023-01-15'']), (''TotalDue'', [CNum 100]),
      (''Status'', [CStr ''Shipped'']), (''CustomerID'', [CInt 7])]"

definition raw_products :: frame where
  "raw_products =
     [(''ProductID'', [CInt 1]), (''Name'', [CStr ''A'']), (''Color'', [CStr ''Red'']),
      (''ListPrice'', [CNum 10]), (''ProductLine'', [CStr ''R''])]"

definition narrowed_sales :: frame where
  "narrowed_sales =
     [(''SalesOrderID'', [CInt 1]),
      (''OrderDate'', [CDate \<lparr>ts_year = 2023, ts_month = 1, ts_day = 15\<rparr>]),
      (''TotalDue'', [CNum 100]), (''Status'', [CStr ''Shipped'']), (''CustomerID'', [CInt 7])]"

definition narrowed_products :: frame where
  "narrowed_products =
     [(''ProductID'', [CInt 1]), (''Name'', [CStr ''A'']), (''ListPrice'', [CNum 10]),
      (''ProductLine'', [CStr ''R''])]"

section \<open>Properties\<close>

lemmas render_simps = decimal.simps digit_char_def zfill_def strftime_Ym_def

subsection \<open>The model on the sample tables\<close>

lemma exact_vals_examples:
  "exact_vals []"
  "exact_vals [Fin 100, Fin 50]"
  "exact_vals [Fin 75]"
  "exact_vals [Fin 100]"
  "exact_vals [Fin 100, Fin 50, Fin 75]"
  "exact_vals [Fin 100, Fin 75]"
  "exact_vals [Fin 10, Fin 999, Fin 5, Fin 500]"
  "exact_vals [Fin 10]"
  by (simp_all add: exact_vals_def is_int_def fin_val_def)

lemma monthly_sales_example:
  "monthly_sales ops [order_of i1 2023 1 15 100 s1 c1, order_of i2 2023 1 20 50 s2 c2,
                  order_of i3 2023 2 1 75 s3 c3]
     = [(''2023-01'', Fin 150, 2), (''2023-02'', Fin 75, 1)]"
  by (simp add: monthly_sales_def group_keys_def month_key_def order_of_def render_simps
      less_char_def less_eq_char_def nansum_def present_def exact_vals_examples fin_val_def)

lemma monthly_sales_gaps:
  "monthly_sales ops orders_with_gaps = [(''2023-01'', Fin 100, 1), (''2023-02'', Fin 75, 1)]"
  by (simp add: orders_with_gaps_def monthly_sales_def group_keys_def month_key_def
      order_of_def render_simps less_char_def less_eq_char_def nansum_def present_def
      exact_vals_examples fin_val_def)

lemma table_sum_gaps:
  "nansum (column_sum ops) (map total_due orders_with_gaps) = Fin 225"
  by (simp add: orders_with_gaps_def order_of_def nansum_def present_def exact_vals_examples
      fin_val_def)

lemma status_dist_example:
  "status_dist [order_of i1 y1 m1 d1 t1 ''Shipped'' c1, order_of i2 y2 m2 d2 t2 ''Shipped'' c2,
      order_of i3 y3 m3 d3 t3 ''Cancelled'' c3] = [(''Shipped'', 2), (''Cancelled'', 1)]"
  by (simp add: status_dist_def value_counts_def order_of_def)

lemma status_dist_gaps: "status_dist orders_with_gaps = [(''Shipped'', 1), (''Cancelled'', 1)]"
  by (simp add: status_dist_def value_counts_def order_of_def orders_with_gaps_def)

lemma nanmean_examples:
  "nanmean ops [] = NaN"
  "nanmean ops [NaN, NaN] = NaN"
  "nanmean ops [Fin 100, Fin 50, Fin 75] = Fin 75"
  "nanmean ops [Fin 10, Fin 999, Fin 5, Fin 500] = Fin (757 / 2)"
  "nanmean ops [Fin 10] = Fin 10"
  by (simp_all add: nanmean_def present_def nansum_def exact_vals_examples fin_val_def
      divide_count_def exact_quotient_def is_int_def)

text \<open>
  A decimal literal that is not a float64 is held as the float64 nearest to it, and that
  is the value printed: the float64 nearest to 2.675 is \<open>3011782250804019 / 2^50\<close>,
  just below it, and is printed as 2.67.
\<close>

lemma format_amount_examples:
  "format_amount NaN = ''nan''"
  "format_amount PosInf = ''inf''"
  "format_amount (Fin 0) = ''0.00''"
  "format_amount (Fin 10) = ''10.00''"
  "format_amount (Fin 75) = ''75.00''"
  "format_amount (Fin 225) = ''225.00''"
  "format_amount (Fin (757 / 2)) = ''378.50''"
  "format_amount (Fin 1234567.875) = ''1,234,567.88''"
  "format_amount (Fin (- 0.125)) = ''-0.12''"
  "format_amount (Fin (3011782250804019 / 1125899906842624)) = ''2.67''"
  by (simp_all add: format_amount_def format_fixed_def round_half_even_def
      group_thousands_def render_simps)

subsection \<open>The monthly aggregate\<close>

text \<open>
  Summing, over a list of distinct keys that covers every row, the per-key totals of a
  table gives the total of the table: each row is counted under its own key only.
\<close>

lemma filter_sum_partition:
  fixes g :: "'a \<Rightarrow> 'b::comm_monoid_add"
  assumes "distinct ks" "set (map f xs) \<subseteq> set ks"
  shows "(\<Sum>k\<leftarrow>ks. sum_list (map g (filter (\<lambda>x. f x = k) xs))) = sum_list (map g xs)"
  using assms(2)
proof (induction xs)
  case Nil
  then show ?case by simp
next
  case (Cons x xs)
  have in_ks: "f x \<in> set ks" using Cons.prems by simp
  have "(\<Sum>k\<leftarrow>ks. sum_list (map g (filter (\<lambda>y. f y = k) (x # xs))))
      = (\<Sum>k\<leftarrow>ks. (if f x = k then g x else 0) + sum_list (map g (filter (\<lambda>y. f y = k) xs)))"
    by (rule arg_cong [where f = sum_list]) (rule map_cong, simp_all)
  also have "\<dots> = (\<Sum>k\<leftarrow>ks. (if f x = k then g x else 0))
                 + (\<Sum>k\<leftarrow>ks. sum_list (map g (filter (\<lambda>y. f y = k) xs)))"
    by (simp add: sum_list_addf)
  also have "(\<Sum>k\<leftarrow>ks. (if f x = k then g x else 0)) = g x"
    using assms(1) in_ks by (simp add: sum_list_distinct_conv_sum_set sum.delta)
  also have "(\<Sum>k\<leftarrow>ks. sum_list (map g (filter (\<lambda>y. f y = k) xs))) = sum_list (map g xs)"
    using Cons by simp
  finally show ?case by simp
qed

lemma set_values_of: "set (values_of xs) = {x. Some x \<in> set xs}"
  by (induction xs rule: values_of.induct) auto

lemma length_values_of:
  "length (values_of (map f xs)) = sum_list (map (\<lambda>x. if f x = None then 0 else 1) xs)"
  by (induction xs) (auto split: option.splits)

lemma group_keys_sorted: "sorted (group_keys ks) \<and> distinct (group_keys ks)"
  by (simp add: group_keys_def)

lemma set_group_keys: "set (group_keys ks) = {k. Some k \<in> set ks}"
  by (simp add: group_keys_def set_values_of)

text \<open>Every row with a key is counted under its own key only.\<close>

lemma month_partition:
  fixes g :: "order_row \<Rightarrow> 'b::comm_monoid_add"
  assumes "list_all (\<lambda>r. order_date r \<noteq> None) sales_data"
  shows "(\<Sum>k\<leftarrow>group_keys (map month_key sales_data).
            sum_list (map g (filter (\<lambda>r. month_key r = Some k) sales_data)))
         = sum_list (map g sales_data)"
proof -
  let ?ks = "map Some (group_keys (map month_key sales_data))"
  have d: "distinct ?ks"
    using group_keys_sorted [of "map month_key sales_data"] by (simp add: distinct_map)
  have "month_key r \<in> set ?ks" if "r \<in> set sales_data" for r
  proof -
    from assms that have "order_date r \<noteq> None" by (simp add: list_all_iff)
    then obtain k where "month_key r = Some k" by (auto simp: month_key_def)
    with that show ?thesis by (force simp: set_group_keys)
  qed
  then have c: "set (map month_key sales_data) \<subseteq> set ?ks" by auto
  from filter_sum_partition [OF d c, of g] show ?thesis
    by (simp add: comp_def)
qed

lemma is_int_Ints: "is_int r \<longleftrightarrow> r \<in> \<int>"
  by (auto simp: is_int_def Ints_def)

lemma is_int_sum_list: "list_all is_int xs \<Longrightarrow> is_int (sum_list xs)"
  by (induction xs) (auto simp: is_int_Ints)

lemma sum_fin_val_present: "sum_list (map fin_val (present col)) = sum_list (map fin_val col)"
  by (induction col) (auto simp: present_def fin_val_def)

lemma sum_abs_present:
  "sum_list (map (\<lambda>v. \<bar>fin_val v\<bar>) (present col)) = sum_list (map (\<lambda>v. \<bar>fin_val v\<bar>) col)"
  by (induction col) (auto simp: present_def fin_val_def)

lemma nansum_exact:
  "exact_vals (present col) \<Longrightarrow> nansum inexact col = Fin (sum_list (map fin_val col))"
  by (simp add: nansum_def sum_fin_val_present)

lemma exact_vals_filter_rows:
  assumes "exact_vals (present (map f xs))"
  shows "exact_vals (present (map f (filter Q xs)))"
proof -
  have a: "list_all c (present (map f xs)) \<Longrightarrow> list_all c (present (map f (filter Q xs)))" for c
    by (induction xs) (auto simp: present_def)
  have "sum_list (map (\<lambda>v. \<bar>fin_val v\<bar>) (map f (filter Q xs)))
          \<le> sum_list (map (\<lambda>v. \<bar>fin_val v\<bar>) (map f xs))"
    by (induction xs) auto
  then have b: "sum_list (map (\<lambda>v. \<bar>fin_val v\<bar>) (present (map f (filter Q xs))))
          \<le> sum_list (map (\<lambda>v. \<bar>fin_val v\<bar>) (present (map f xs)))"
    by (simp only: sum_abs_present)
  from assms a b show ?thesis
    unfolding exact_vals_def by force
qed

lemma exact_vals_int_rows:
  assumes "exact_vals (present (map f xs))" "x \<in> set xs"
  shows "is_int (fin_val (f x))"
proof (cases "f x = NaN")
  case True
  then show ?thesis by (simp add: fin_val_def is_int_def)
next
  case False
  with assms(2) have "f x \<in> set (present (map f xs))" by (auto simp: present_def)
  with assms(1) show ?thesis
    by (auto simp: exact_vals_def list_all_iff fin_val_def split: f64.splits)
qed

lemma group_total_exact:
  assumes "exact_vals (present (map total_due sales_data))"
  shows "nansum inexact (map total_due (filter Q sales_data))
           = Fin (sum_list (map (\<lambda>r. fin_val (total_due r)) (filter Q sales_data)))"
  using nansum_exact [OF exact_vals_filter_rows [OF assms, of Q], of inexact]
  by (simp add: comp_def)

lemma monthly_totals_exact:
  assumes "exact_vals (present (map total_due sales_data))"
  shows "map (\<lambda>(k, s, c). s) (monthly_sales ops sales_data)
           = map (\<lambda>k. Fin (sum_list (map (\<lambda>r. fin_val (total_due r))
                                 (filter (\<lambda>r. month_key r = Some k) sales_data))))
                 (map fst (monthly_sales ops sales_data))"
  by (simp add: monthly_sales_def Let_def comp_def group_total_exact [OF assms])

lemma monthly_keys: "map fst (monthly_sales ops sales_data) = group_keys (map month_key sales_data)"
  by (simp add: monthly_sales_def Let_def comp_def)

lemma monthly_totals_sum:
  assumes "list_all (\<lambda>r. order_date r \<noteq> None) sales_data"
    and "exact_vals (present (map total_due sales_data))"
  shows "sum_list (map (\<lambda>(k, s, c). fin_val s) (monthly_sales ops sales_data))
           = sum_list (map (\<lambda>r. fin_val (total_due r)) sales_data)"
proof -
  have "map (\<lambda>(k, s, c). fin_val s) (monthly_sales ops sales_data)
          = map fin_val (map (\<lambda>(k, s, c). s) (monthly_sales ops sales_data))"
    by (simp add: comp_def case_prod_unfold)
  also have "\<dots> = map (\<lambda>k. sum_list (map (\<lambda>r. fin_val (total_due r))
                                 (filter (\<lambda>r. month_key r = Some k) sales_data)))
                        (group_keys (map month_key sales_data))"
    by (simp only: monthly_totals_exact [OF assms(2)] monthly_keys)
       (simp add: comp_def fin_val_def)
  finally show ?thesis
    by (simp only: month_partition [OF assms(1)])
qed

lemma monthly_totals_exact_vals:
  assumes "list_all (\<lambda>r. order_date r \<noteq> None) sales_data"
    and "exact_vals (present (map total_due sales_data))"
  shows "exact_vals (present (map (\<lambda>(k, s, c). s) (monthly_sales ops sales_data)))"
proof -
  let ?v = "\<lambda>r. fin_val (total_due r)"
  let ?S = "\<lambda>k. sum_list (map ?v (filter (\<lambda>r. month_key r = Some k) sales_data))"
  let ?A = "\<lambda>k. sum_list (map (\<lambda>r. \<bar>?v r\<bar>) (filter (\<lambda>r. month_key r = Some k) sales_data))"
  let ?ks = "group_keys (map month_key sales_data)"
  have tot: "map (\<lambda>(k, s, c). s) (monthly_sales ops sales_data) = map (\<lambda>k. Fin (?S k)) ?ks"
    by (simp only: monthly_totals_exact [OF assms(2)] monthly_keys)
  have pres: "present (map (\<lambda>k. Fin (?S k)) ?ks) = map (\<lambda>k. Fin (?S k)) ?ks"
    by (simp add: present_def)
  have ints: "is_int (?S k)" for k
    by (rule is_int_sum_list)
       (auto simp: list_all_iff intro: exact_vals_int_rows [OF assms(2)])
  have "sum_list (map (\<lambda>k. \<bar>?S k\<bar>) ?ks) \<le> sum_list (map ?A ?ks)"
    by (rule sum_list_mono) (simp add: sum_list_abs [of "map ?v xs" for xs, simplified comp_def map_map] )
  also have "\<dots> = sum_list (map (\<lambda>r. \<bar>?v r\<bar>) sales_data)"
    by (rule month_partition [OF assms(1)])
  also have "\<dots> \<le> 2 ^ 53"
    using assms(2) by (simp add: exact_vals_def sum_abs_present comp_def)
  finally have bound: "sum_list (map (\<lambda>k. \<bar>?S k\<bar>) ?ks) \<le> 2 ^ 53" .
  show ?thesis
    unfolding tot pres exact_vals_def
    using ints bound by (simp add: list_all_iff fin_val_def comp_def)
qed

lemma monthly_float_sum:
  assumes "list_all (\<lambda>r. order_date r \<noteq> None) sales_data"
    and "exact_vals (present (map total_due sales_data))"
  shows "nansum inexact (map (\<lambda>(k, s, c). s) (monthly_sales ops sales_data))
           = nansum inexact (map total_due sales_data)"
proof -
  have "nansum inexact (map (\<lambda>(k, s, c). s) (monthly_sales ops sales_data))
          = Fin (sum_list (map fin_val (map (\<lambda>(k, s, c). s) (monthly_sales ops sales_data))))"
    by (rule nansum_exact [OF monthly_totals_exact_vals [OF assms]])
  also have "map fin_val (map (\<lambda>(k, s, c). s) (monthly_sales ops sales_data))
          = map (\<lambda>(k, s, c). fin_val s) (monthly_sales ops sales_data)"
    by (simp add: comp_def case_prod_unfold)
  also have "sum_list \<dots> = sum_list (map (\<lambda>r. fin_val (total_due r)) sales_data)"
    by (rule monthly_totals_sum [OF assms])
  also have "Fin \<dots> = nansum inexact (map total_due sales_data)"
    using nansum_exact [OF assms(2), of inexact] by (simp add: comp_def)
  finally show ?thesis .
qed

lemma monthly_counts:
  assumes "list_all (\<lambda>r. order_date r \<noteq> None) sales_data"
  shows "sum_list (map (\<lambda>(k, s, c). c) (monthly_sales ops sales_data))
           = length (values_of (map sales_order_id sales_data))"
proof -
  let ?one = "\<lambda>r. if sales_order_id r = None then 0 else (1::nat)"
  have "map (\<lambda>(k, s, c). c) (monthly_sales ops sales_data)
          = map (\<lambda>k. sum_list (map ?one (filter (\<lambda>r. month_key r = Some k) sales_data)))
                (group_keys (map month_key sales_data))"
    by (simp add: monthly_sales_def Let_def comp_def length_values_of)
  then show ?thesis
    by (simp only: month_partition [OF assms] length_values_of)
qed

lemma monthly_key_set:
  "set (map fst (monthly_sales ops sales_data)) = {k. Some k \<in> month_key ` set sales_data}"
  by (simp add: monthly_keys set_group_keys)

text \<open>
  C1, as the claim states it, fails: a row without an order date is in no group. Of three
  orders with total due 100, 50 and 75, the second without its order date, the aggregate
  holds the totals 100 and 75, while the total due of the table sums to 225.
\<close>

theorem monthly_sales_missing_date_counterexample:
  "monthly_sales sample_ops orders_with_gaps = [(''2023-01'', Fin 100, 1), (''2023-02'', Fin 75, 1)]
   \<and> nansum (column_sum sample_ops) (map total_due orders_with_gaps) = Fin 225
   \<and> length orders_with_gaps = 3"
  by (simp add: monthly_sales_gaps table_sum_gaps) (simp add: orders_with_gaps_def)

text \<open>
  C1, amended. For an order table in which every row has an order date and whose total-due
  values are integers with absolute values adding up to at most \<open>2^53\<close> (so that every
  float64 sum involved is exact), the totals of the monthly aggregate sum to the total due
  of the table, as a float64 sum and as an exact sum; every total is the exact sum of the
  rows of its month; the counts sum to the number of rows that have an order id; the
  months are the distinct months of the table in ascending order. Three orders dated
  2023-01-15, 2023-01-20 and 2023-02-01 with total due 100, 50 and 75 give exactly the
  groups (2023-01, 150, 2) and (2023-02, 75, 1), whatever the library's rounding.
\<close>

theorem monthly_sales_partition:
  assumes "list_all (\<lambda>r. order_date r \<noteq> None) sales_data"
    and "exact_vals (present (map total_due sales_data))"
  shows "nansum (column_sum ops) (map (\<lambda>(k, s, c). s) (monthly_sales ops sales_data))
           = nansum (column_sum ops) (map total_due sales_data)
   \<and> sum_list (map (\<lambda>(k, s, c). fin_val s) (monthly_sales ops sales_data))
           = sum_list (map (\<lambda>r. fin_val (total_due r)) sales_data)
   \<and> map (\<lambda>(k, s, c). s) (monthly_sales ops sales_data)
           = map (\<lambda>k. Fin (sum_list (map (\<lambda>r. fin_val (total_due r))
                                 (filter (\<lambda>r. month_key r = Some k) sales_data))))
                 (map fst (monthly_sales ops sales_data))
   \<and> sum_list (map (\<lambda>(k, s, c). c) (monthly_sales ops sales_data))
           = length (values_of (map sales_order_id sales_data))
   \<and> sorted (map fst (monthly_sales ops sales_data))
   \<and> distinct (map fst (monthly_sales ops sales_data))
   \<and> set (map fst (monthly_sales ops sales_data)) = {k. Some k \<in> month_key ` set sales_data}
   \<and> monthly_sales ops [order_of i1 2023 1 15 100 s1 c1, order_of i2 2023 1 20 50 s2 c2,
                         order_of i3 2023 2 1 75 s3 c3]
       = [(''2023-01'', Fin 150, 2), (''2023-02'', Fin 75, 1)]"
proof -
  have k: "sorted (map fst (monthly_sales ops sales_data))"
          "distinct (map fst (monthly_sales ops sales_data))"
    using group_keys_sorted [of "map month_key sales_data"] by (simp_all add: monthly_keys)
  show ?thesis
    by (intro conjI monthly_float_sum [OF assms] monthly_totals_sum [OF assms]
        monthly_totals_exact [OF assms(2)] monthly_counts [OF assms(1)] k monthly_key_set
        monthly_sales_example)
qed

lemma three_orders_dated: "list_all (\<lambda>r. order_date r \<noteq> None) three_orders"
  by (simp add: three_orders_def order_of_def)

lemma three_orders_exact: "exact_vals (present (map total_due three_orders))"
  by (simp add: three_orders_def order_of_def present_def exact_vals_examples)

lemma three_orders_sum: "nansum inexact (map total_due three_orders) = Fin 225"
  by (simp add: three_orders_def order_of_def nansum_def present_def exact_vals_examples fin_val_def)

theorem monthly_sales_partition_witness:
  "list_all (\<lambda>r. order_date r \<noteq> None) three_orders
   \<and> exact_vals (present (map total_due three_orders))
   \<and> nansum (column_sum sample_ops) (map (\<lambda>(k, s, c). s) (monthly_sales sample_ops three_orders))
       = nansum (column_sum sample_ops) (map total_due three_orders)
   \<and> nansum (column_sum sample_ops) (map total_due three_orders) = Fin 225
   \<and> monthly_sales sample_ops three_orders = [(''2023-01'', Fin 150, 2), (''2023-02'', Fin 75, 1)]"
proof -
  note t = monthly_sales_partition [OF three_orders_dated three_orders_exact, of sample_ops]
  have a: "nansum (column_sum sample_ops) (map (\<lambda>(k, s, c). s) (monthly_sales sample_ops three_orders))
       = nansum (column_sum sample_ops) (map total_due three_orders)"
    using t by (rule conjunct1)
  have b: "monthly_sales sample_ops three_orders = [(''2023-01'', Fin 150, 2), (''2023-02'', Fin 75, 1)]"
    unfolding three_orders_def by (rule monthly_sales_example)
  show ?thesis
    by (intro conjI three_orders_dated three_orders_exact a three_orders_sum b)
qed

subsection \<open>The status distribution\<close>

lemma sum_list_insort_key:
  fixes g :: "'a \<Rightarrow> nat"
  shows "sum_list (map g (insort_key f x xs)) = g x + sum_list (map g xs)"
  by (induction xs) simp_all

lemma sum_list_sort_key:
  fixes g :: "'a \<Rightarrow> nat"
  shows "sum_list (map g (sort_key f xs)) = sum_list (map g xs)"
  by (induction xs) (simp_all add: sum_list_insort_key)

lemma value_counts_total: "sum_list (map snd (value_counts col)) = length (values_of col)"
proof -
  let ?xs = "values_of col"
  let ?ds = "rev (remdups (rev ?xs))"
  have d: "distinct ?ds" and s: "set ?ds = set ?xs" by simp_all
  have "sum_list (map snd (value_counts col)) = sum_list (map (count_list ?xs) ?ds)"
    by (simp add: value_counts_def Let_def sum_list_sort_key comp_def)
  also have "\<dots> = sum (count_list ?xs) (set ?ds)"
    using d by (simp only: sum_list_distinct_conv_sum_set)
  also have "\<dots> = length ?xs"
    using s by (simp add: sum_count_set)
  finally show ?thesis .
qed

lemma value_counts_labels:
  "distinct (map fst (value_counts col)) \<and> set (map fst (value_counts col)) = set (values_of col)"
proof -
  let ?xs = "values_of col"
  let ?ds = "rev (remdups (rev ?xs))"
  let ?ys = "map (\<lambda>v. (v, count_list ?xs v)) ?ds"
  let ?zs = "sort_key (\<lambda>(v, c). - int c) ?ys"
  have fst_ys: "map fst ?ys = ?ds" by (simp add: comp_def)
  have "distinct (map fst ?ys)" by (simp only: fst_ys) simp
  then have "distinct ?ys" "inj_on fst (set ?ys)" by (simp_all only: distinct_map)
  then have d: "distinct (map fst ?zs)" by (simp add: distinct_map)
  have s: "set (map fst ?zs) = set ?xs" by (simp add: image_image)
  from d s show ?thesis by (simp add: value_counts_def Let_def)
qed

lemma value_counts_counts:
  "map snd (value_counts col) = map (count_list (values_of col)) (map fst (value_counts col))"
proof -
  have "snd z = count_list (values_of col) (fst z)" if "z \<in> set (value_counts col)" for z
    using that by (auto simp: value_counts_def Let_def)
  then show ?thesis by (simp add: comp_def)
qed

lemma value_counts_descending: "sorted_wrt (\<ge>) (map snd (value_counts col))"
proof -
  let ?k = "\<lambda>(v::'a, c::nat). - int c"
  have "sorted (map ?k (value_counts col))"
    by (simp add: value_counts_def Let_def)
  then have "sorted_wrt (\<lambda>a b. ?k a \<le> ?k b) (value_counts col)"
    by (simp add: sorted_map)
  then have "sorted_wrt (\<lambda>a b. snd a \<ge> snd b) (value_counts col)"
    by (rule sorted_wrt_mono_rel [rotated]) (auto simp: case_prod_unfold)
  then show ?thesis by (simp add: sorted_wrt_map)
qed

lemma count_list_values_of:
  "count_list (values_of (map f xs)) l = length (filter (\<lambda>x. f x = Some l) xs)"
proof (induction xs)
  case Nil
  then show ?case by simp
next
  case (Cons a xs)
  then show ?case by (cases "f a") auto
qed

lemma length_values_of_cases:
  "(if None \<in> set xs then length (values_of xs) < length xs
    else length (values_of xs) = length xs)"
proof (induction xs rule: values_of.induct)
  case 1
  then show ?case by simp
next
  case (2 xs)
  then show ?case by (auto split: if_splits)
next
  case (3 x xs)
  then show ?case by (auto split: if_splits)
qed

lemma status_dist_total_cases:
  "(if list_all (\<lambda>r. status r \<noteq> None) sales_data
    then sum_list (map snd (status_dist sales_data)) = length sales_data
    else sum_list (map snd (status_dist sales_data)) < length sales_data)"
proof -
  have "None \<in> set (map status sales_data) \<longleftrightarrow> \<not> list_all (\<lambda>r. status r \<noteq> None) sales_data"
    by (force simp: list_all_iff image_iff)
  with length_values_of_cases [of "map status sales_data"] show ?thesis
    by (simp add: status_dist_def value_counts_total split: if_splits)
qed

lemma status_dist_counts:
  "map snd (status_dist sales_data)
     = map (\<lambda>l. length (filter (\<lambda>r. status r = Some l) sales_data)) (map fst (status_dist sales_data))"
  using value_counts_counts [of "map status sales_data"]
  by (simp add: status_dist_def count_list_values_of comp_def)

text \<open>
  C5, as the claim states it, fails: a row without a status is not counted. Of three
  orders, the second without its status, the distribution counts Shipped once and
  Cancelled once: the counts sum to 2, the table has 3 rows.
\<close>

theorem status_dist_missing_counterexample:
  "status_dist orders_with_gaps = [(''Shipped'', 1), (''Cancelled'', 1)]
   \<and> sum_list (map snd (status_dist orders_with_gaps)) = 2
   \<and> length orders_with_gaps = 3"
  by (simp add: status_dist_gaps) (simp add: orders_with_gaps_def)

text \<open>
  C5, amended. The counts of the status distribution sum to the number of rows that have
  a status: to the number of rows of the order table when no status is missing, to less
  otherwise. The labels are the distinct statuses of the table, each with the number of
  rows that carry it, the larger count first. Orders with the statuses Shipped, Shipped,
  Cancelled give Shipped: 2 and Cancelled: 1.
\<close>

theorem status_dist_total:
  "sum_list (map snd (status_dist sales_data)) = length (values_of (map status sales_data))
   \<and> (if list_all (\<lambda>r. status r \<noteq> None) sales_data
       then sum_list (map snd (status_dist sales_data)) = length sales_data
       else sum_list (map snd (status_dist sales_data)) < length sales_data)
   \<and> distinct (map fst (status_dist sales_data))
   \<and> set (map fst (status_dist sales_data)) = set (values_of (map status sales_data))
   \<and> map snd (status_dist sales_data)
       = map (\<lambda>l. length (filter (\<lambda>r. status r = Some l) sales_data))
             (map fst (status_dist sales_data))
   \<and> sorted_wrt (\<ge>) (map snd (status_dist sales_data))
   \<and> status_dist [order_of i1 y1 m1 d1 t1 ''Shipped'' c1, order_of i2 y2 m2 d2 t2 ''Shipped'' c2,
                   order_of i3 y3 m3 d3 t3 ''Cancelled'' c3]
       = [(''Shipped'', 2), (''Cancelled'', 1)]"
proof -
  have l: "distinct (map fst (status_dist sales_data))"
     "set (map fst (status_dist sales_data)) = set (values_of (map status sales_data))"
    using value_counts_labels [of "map status sales_data"] by (simp_all add: status_dist_def)
  have t: "sum_list (map snd (status_dist sales_data)) = length (values_of (map status sales_data))"
    by (simp add: status_dist_def value_counts_total)
  have d: "sorted_wrt (\<ge>) (map snd (status_dist sales_data))"
    by (simp add: status_dist_def value_counts_descending)
  show ?thesis
    by (intro conjI t status_dist_total_cases l status_dist_counts d status_dist_example)
qed

subsection \<open>The top-N selection\<close>

text \<open>Inserting a row whose number is smaller than every number in a list that is in
  the order of \<open>nlargest\<close> keeps the list in that order: the new row goes before the
  rows of equal price.\<close>

lemma price_desc_insort:
  assumes "sorted_wrt price_desc ys" "\<forall>b\<in>set ys. fst a < fst b"
  shows "sorted_wrt price_desc (insort_key (\<lambda>p. - list_price (snd p)) a ys)"
  using assms
proof (induction ys)
  case Nil
  then show ?case by simp
next
  case (Cons y ys)
  show ?case
  proof (cases "list_price (snd y) \<le> list_price (snd a)")
    case True
    have "price_desc a y" using True Cons.prems(2) by (auto simp: price_desc_def)
    moreover have "price_desc a z" if "z \<in> set ys" for z
    proof -
      have "price_desc y z" using Cons.prems(1) that by simp
      moreover have "fst a < fst z" using Cons.prems(2) that by simp
      ultimately show ?thesis using True by (auto simp: price_desc_def)
    qed
    ultimately show ?thesis using True Cons.prems(1) by simp
  next
    case False
    have "price_desc y a" using False by (simp add: price_desc_def)
    moreover have "sorted_wrt price_desc (insort_key (\<lambda>p. - list_price (snd p)) a ys)"
      using Cons by simp
    ultimately show ?thesis using False Cons.prems(1)
      by (auto simp: set_insort_key)
  qed
qed

lemma enumerate_fst_ge: "b \<in> set (enumerate i xs) \<Longrightarrow> i \<le> fst b"
  by (auto simp: in_set_enumerate_eq)

lemma price_desc_sort_enumerate:
  "sorted_wrt price_desc (sort_key (\<lambda>p. - list_price (snd p)) (enumerate i xs))"
proof (induction xs arbitrary: i)
  case Nil
  then show ?case by simp
next
  case (Cons x xs)
  have "\<forall>b\<in>set (sort_key (\<lambda>p. - list_price (snd p)) (enumerate (Suc i) xs)). fst (i, x) < fst b"
    using enumerate_fst_ge [of _ "Suc i" xs] by fastforce
  with Cons [of "Suc i"] show ?case
    by (simp add: price_desc_insort)
qed

lemma mset_take_subset: "mset (take n xs) \<subseteq># mset xs"
proof -
  have "mset xs = mset (take n xs) + mset (drop n xs)"
    by (simp flip: mset_append)
  then show ?thesis by simp
qed

lemma nlargest_length: "length (nlargest n product_data) = min n (length product_data)"
  by (simp add: nlargest_def min.commute)

lemma nlargest_numbered_rows:
  "mset (nlargest n product_data) \<subseteq># mset (enumerate 0 product_data)"
  using mset_take_subset [of n "sort_key (\<lambda>p. - list_price (snd p)) (enumerate 0 product_data)"]
  by (simp add: nlargest_def)

lemma nlargest_rows: "mset (map snd (nlargest n product_data)) \<subseteq># mset product_data"
proof -
  have "image_mset snd (mset (nlargest n product_data))
          \<subseteq># image_mset snd (mset (enumerate 0 product_data))"
    by (rule image_mset_subseteq_mono) (rule nlargest_numbered_rows)
  then show ?thesis by (simp flip: mset_map)
qed

lemma nlargest_sorted: "sorted_wrt price_desc (nlargest n product_data)"
  using price_desc_sort_enumerate [of 0 product_data]
  by (simp add: nlargest_def sorted_wrt_take)

lemma nlargest_prefix:
  "\<exists>rest. mset (nlargest n product_data @ rest) = mset (enumerate 0 product_data)
        \<and> sorted_wrt price_desc (nlargest n product_data @ rest)"
proof -
  let ?all = "sort_key (\<lambda>p. - list_price (snd p)) (enumerate 0 product_data)"
  have app: "nlargest n product_data @ drop n ?all = ?all"
    by (simp add: nlargest_def)
  have "mset (nlargest n product_data @ drop n ?all) = mset (enumerate 0 product_data)"
    by (simp only: app mset_sort)
  moreover have "sorted_wrt price_desc (nlargest n product_data @ drop n ?all)"
    by (simp only: app price_desc_sort_enumerate)
  ultimately show ?thesis by (intro exI conjI)
qed

lemma top_products_example:
  "top_products four_products
     = [(1, product_of 2 ''B'' 999 ''M''), (3, product_of 4 ''D'' 500 ''T''),
        (0, product_of 1 ''A'' 10 ''R''), (2, product_of 3 ''C'' 5 ''R'')]"
  by (simp add: top_products_def nlargest_def four_products_def product_of_def)

text \<open>
  C2. The top-N selection (N = 10 for the bar panel) returns min(N, number of rows) rows;
  each is a row of the product table at its own row number, none taken twice; they are in
  descending order of list price, rows of equal price in the order of their row numbers;
  and they are the first rows of the whole table put in that order, so that no row left
  out comes before a row selected.
\<close>

theorem nlargest_top:
  "length (nlargest n product_data) = min n (length product_data)
   \<and> mset (nlargest n product_data) \<subseteq># mset (enumerate 0 product_data)
   \<and> mset (map snd (nlargest n product_data)) \<subseteq># mset product_data
   \<and> sorted_wrt price_desc (nlargest n product_data)
   \<and> (\<exists>rest. mset (nlargest n product_data @ rest) = mset (enumerate 0 product_data)
         \<and> sorted_wrt price_desc (nlargest n product_data @ rest))
   \<and> top_products product_data = nlargest 10 product_data"
  by (intro conjI nlargest_length nlargest_numbered_rows nlargest_rows nlargest_sorted
      nlargest_prefix top_products_def)

subsection \<open>The row of the highest price\<close>

lemma first_index_found:
  "\<exists>y\<in>set xs. P y \<Longrightarrow> first_index P xs < length xs \<and> P (xs ! first_index P xs)"
  by (induction xs) auto

lemma first_index_least: "j < first_index P xs \<Longrightarrow> \<not> P (xs ! j)"
proof (induction xs arbitrary: j)
  case Nil
  then show ?case by simp
next
  case (Cons x xs)
  then show ?case by (cases j) (auto split: if_splits)
qed

lemma idxmax_first_max:
  assumes "xs \<noteq> []"
  shows "\<exists>i. idxmax xs = Inr i \<and> i < length xs
           \<and> (\<forall>j<length xs. xs ! j \<le> xs ! i) \<and> (\<forall>j<i. xs ! j < xs ! i)"
proof -
  obtain x rest where xs: "xs = x # rest" using assms by (cases xs) auto
  let ?m = "fold max rest x"
  let ?i = "first_index (\<lambda>v. v = ?m) xs"
  have m: "?m = Max (set xs)" by (simp only: xs Max.set_eq_fold)
  have "Max (set xs) \<in> set xs" using assms by (intro Max_in) simp_all
  then have "\<exists>y\<in>set xs. y = ?m" using m by simp
  from first_index_found [of xs "\<lambda>v. v = ?m", OF this]
  have i: "?i < length xs" and at: "xs ! ?i = ?m" by simp_all
  have le: "xs ! j \<le> xs ! ?i" if "j < length xs" for j
    using that at m by simp
  have lt: "xs ! j < xs ! ?i" if "j < ?i" for j
  proof -
    have "xs ! j \<noteq> ?m" using first_index_least [OF that] .
    moreover have "xs ! j \<le> xs ! ?i" using that i le by simp
    ultimately show ?thesis using at by simp
  qed
  have "idxmax xs = Inr ?i" by (simp add: idxmax_def xs)
  with i le lt show ?thesis by blast
qed

lemma insights_dict_at:
  assumes "idxmax (map list_price product_data) = Inr i" "i < length product_data"
  shows "insights_dict ops sales_data product_data =
           Inr \<lparr>total_sales = nansum (column_sum ops) (map total_due sales_data),
                total_orders = length sales_data,
                avg_order_value = nanmean ops (map total_due sales_data),
                avg_product_price = nanmean ops (map (\<lambda>p. Fin (list_price p)) product_data),
                most_expensive_product = name (product_data ! i)\<rparr>"
  using assms by (simp add: insights_dict_def loc_name_def)

lemma insights_dict_nonempty:
  assumes "product_data \<noteq> []"
  shows "\<exists>i. idxmax (map list_price product_data) = Inr i \<and> i < length product_data
           \<and> insights_dict ops sales_data product_data =
               Inr \<lparr>total_sales = nansum (column_sum ops) (map total_due sales_data),
                    total_orders = length sales_data,
                    avg_order_value = nanmean ops (map total_due sales_data),
                    avg_product_price = nanmean ops (map (\<lambda>p. Fin (list_price p)) product_data),
                    most_expensive_product = name (product_data ! i)\<rparr>"
proof -
  from assms have "map list_price product_data \<noteq> []" by simp
  from idxmax_first_max [OF this] obtain i
    where i: "idxmax (map list_price product_data) = Inr i" "i < length product_data"
    by auto
  from i insights_dict_at [OF i, of ops sales_data] show ?thesis by (intro exI conjI)
qed

lemma idxmax_four_products: "idxmax (map list_price four_products) = Inr 1"
  by (simp add: idxmax_def four_products_def product_of_def)

lemma insights_dict_four_products:
  "insights_dict ops sales_data four_products =
     Inr \<lparr>total_sales = nansum (column_sum ops) (map total_due sales_data),
          total_orders = length sales_data,
          avg_order_value = nanmean ops (map total_due sales_data),
          avg_product_price = nanmean ops (map (\<lambda>p. Fin (list_price p)) four_products),
          most_expensive_product = ''B''\<rparr>"
proof -
  have "(1::nat) < length four_products" by (simp add: four_products_def)
  from insights_dict_at [OF idxmax_four_products this, of ops sales_data]
  show ?thesis by (simp add: four_products_def product_of_def)
qed

text \<open>
  C7. For a product table that is not empty, insight extraction succeeds and the most
  expensive product is the name of the row whose list price no other row exceeds and every
  earlier row stays strictly below: the first row of maximum price. For the prices 10, 999,
  5, 500 of the products A, B, C, D it is B.
\<close>

theorem most_expensive_is_first_maximum:
  assumes "product_data \<noteq> []"
  shows "(\<exists>ins i. insights_dict ops sales_data product_data = Inr ins
           \<and> i < length product_data
           \<and> most_expensive_product ins = name (product_data ! i)
           \<and> (\<forall>j<length product_data. list_price (product_data ! j) \<le> list_price (product_data ! i))
           \<and> (\<forall>j<i. list_price (product_data ! j) < list_price (product_data ! i)))
         \<and> (\<exists>ins. insights_dict ops sales_data four_products = Inr ins
               \<and> most_expensive_product ins = ''B'')"
proof
  from assms have ne: "map list_price product_data \<noteq> []" by simp
  from idxmax_first_max [OF ne] obtain i where
    i: "idxmax (map list_price product_data) = Inr i" "i < length product_data"
    and le: "\<forall>j<length product_data. list_price (product_data ! j) \<le> list_price (product_data ! i)"
    and lt: "\<forall>j<i. list_price (product_data ! j) < list_price (product_data ! i)"
    by auto
  let ?ins = "\<lparr>total_sales = nansum (column_sum ops) (map total_due sales_data),
           total_orders = length sales_data,
           avg_order_value = nanmean ops (map total_due sales_data),
           avg_product_price = nanmean ops (map (\<lambda>p. Fin (list_price p)) product_data),
           most_expensive_product = name (product_data ! i)\<rparr>"
  have d: "insights_dict ops sales_data product_data = Inr ?ins"
    by (rule insights_dict_at [OF i])
  have nm: "most_expensive_product ?ins = name (product_data ! i)" by simp
  show "\<exists>ins i. insights_dict ops sales_data product_data = Inr ins
           \<and> i < length product_data
           \<and> most_expensive_product ins = name (product_data ! i)
           \<and> (\<forall>j<length product_data. list_price (product_data ! j) \<le> list_price (product_data ! i))
           \<and> (\<forall>j<i. list_price (product_data ! j) < list_price (product_data ! i))"
    by (rule exI [of _ ?ins], rule exI [of _ i]) (intro conjI d i(2) nm le lt)
next
  show "\<exists>ins. insights_dict ops sales_data four_products = Inr ins \<and> most_expensive_product ins = ''B''"
    by (simp add: insights_dict_four_products)
qed

theorem most_expensive_is_first_maximum_witness:
  "four_products \<noteq> [] \<and>
   (\<exists>ins i. insights_dict sample_ops three_orders four_products = Inr ins
      \<and> i < length four_products
      \<and> most_expensive_product ins = name (four_products ! i)
      \<and> (\<forall>j<length four_products. list_price (four_products ! j) \<le> list_price (four_products ! i))
      \<and> (\<forall>j<i. list_price (four_products ! j) < list_price (four_products ! i)))
   \<and> (\<exists>ins. insights_dict sample_ops three_orders four_products = Inr ins
         \<and> most_expensive_product ins = ''B'')"
proof -
  have ne: "four_products \<noteq> []" by (simp add: four_products_def)
  from ne most_expensive_is_first_maximum [OF ne, of sample_ops three_orders] show ?thesis
    by (rule conjI)
qed

subsection \<open>The preparation step\<close>

lemma prepare_data_product_arg: "product_arg (prepare_data conv s p) = p"
  by (simp add: prepare_data_def Let_def split: sum.splits)

lemma prepare_data_sales_arg:
  "sales_arg (prepare_data conv s p) =
     (case column s ''OrderDate'' of
        Inl e \<Rightarrow> s
      | Inr col \<Rightarrow> (case to_datetime conv col of
                     Inl e \<Rightarrow> s
                   | Inr dates \<Rightarrow> set_column s ''OrderDate'' dates))"
  by (simp add: prepare_data_def Let_def split: sum.splits)

lemma column_Inr_in_keys: "column s c = Inr col \<Longrightarrow> c \<in> set (map fst s)"
  by (auto simp: column_def split: option.splits dest!: map_of_SomeD intro: rev_image_eqI)

lemma prepare_data_sales_columns: "map fst (sales_arg (prepare_data conv s p)) = map fst s"
  by (auto simp: prepare_data_sales_arg set_column_def update_keys
      dest: column_Inr_in_keys split: sum.splits)

lemma prepare_data_other_columns:
  "AList.delete ''OrderDate'' (sales_arg (prepare_data conv s p)) = AList.delete ''OrderDate'' s"
  by (simp add: prepare_data_sales_arg set_column_def delete_update_same split: sum.splits)

lemma prepare_data_raw_example:
  "prepare_data iso_conv raw_sales raw_products =
     \<lparr>sales_arg =
        [(''SalesOrderID'', [CInt 1]), (''RevisionNumber'', [CInt 8]),
         (''OrderDate'', [CDate \<lparr>ts_year = 2023, ts_month = 1, ts_day = 15\<rparr>]),
         (''TotalDue'', [CNum 100]), (''Status'', [CStr ''Shipped'']),
         (''CustomerID'', [CInt 7])],
      product_arg = raw_products,
      returned = Inr (narrowed_sales, narrowed_products)\<rparr>"
  by (simp add: prepare_data_def raw_sales_def raw_products_def narrowed_sales_def
      narrowed_products_def column_def to_datetime_def is_datetime_def parse_iso_date_def
      digit_value_def is_digit_def set_column_def select_columns_def sales_columns_def
      product_columns_def)

text \<open>
  C3, as the claim states it, fails: the order table object passed in is changed by the
  call. Here its order date column holds the text 2023-01-15 before the call and the
  parsed date after it.
\<close>

theorem prepare_data_mutates_counterexample:
  "sales_arg (prepare_data iso_conv raw_sales raw_products) \<noteq> raw_sales
   \<and> returned (prepare_data iso_conv raw_sales raw_products) = Inr (narrowed_sales, narrowed_products)"
  by (simp add: prepare_data_raw_example) (simp add: raw_sales_def)

text \<open>
  C3, amended. The preparation step is a function of its two tables (and of the date
  conversion) only. It leaves the product table object as it was. In the order table
  object it replaces the order date column by the converted dates, where that column
  exists and the conversion accepts it, and changes nothing otherwise: the column names
  and their order, and every column other than the order date, are as before. The
  narrowed tables are returned as new values.
\<close>

theorem prepare_data_effects:
  "product_arg (prepare_data conv s p) = p
   \<and> map fst (sales_arg (prepare_data conv s p)) = map fst s
   \<and> AList.delete ''OrderDate'' (sales_arg (prepare_data conv s p)) = AList.delete ''OrderDate'' s
   \<and> sales_arg (prepare_data conv s p) =
       (case column s ''OrderDate'' of
          Inl e \<Rightarrow> s
        | Inr col \<Rightarrow> (case to_datetime conv col of
                       Inl e \<Rightarrow> s
                     | Inr dates \<Rightarrow> set_column s ''OrderDate'' dates))"
  by (intro conjI prepare_data_product_arg prepare_data_sales_columns
      prepare_data_other_columns prepare_data_sales_arg)

lemma select_all_columns:
  assumes "distinct (map fst df)"
  shows "select_columns df (map fst df) = Inr df"
proof -
  have some: "map_of df c = Some col" if "(c, col) \<in> set df" for c col
    using assms that by simp
  have "filter (\<lambda>c. map_of df c = None) (map fst df) = []"
    by (auto simp: filter_empty_conv map_of_eq_None_iff)
  moreover have "map (\<lambda>c. (c, case map_of df c of Some col \<Rightarrow> col | None \<Rightarrow> [])) (map fst df) = df"
    by (rule map_idI [THEN trans [OF map_map]]) (auto simp: some)
  ultimately show ?thesis by (simp add: select_columns_def)
qed

text \<open>
  C8. Preparing tables that are already in the prepared schema (the five order columns
  with the order dates parsed, the four product columns) returns the two tables as they
  are, and leaves the objects passed in as they are.
\<close>

theorem prepare_data_idempotent:
  assumes "prepared_sales s" "prepared_products p"
  shows "prepare_data conv s p = \<lparr>sales_arg = s, product_arg = p, returned = Inr (s, p)\<rparr>"
proof -
  from assms(1) obtain col where
    keys: "map fst s = sales_columns" and col: "map_of s ''OrderDate'' = Some col"
    and dates: "list_all is_datetime col"
    by (auto simp: prepared_sales_def split: option.splits)
  have c: "column s ''OrderDate'' = Inr col" by (simp add: column_def col)
  have t: "to_datetime conv col = Inr col" by (simp add: to_datetime_def dates)
  have u: "set_column s ''OrderDate'' col = s" by (simp add: set_column_def col update_triv)
  have "distinct (map fst s)" by (simp add: keys sales_columns_def)
  then have ss: "select_columns s sales_columns = Inr s"
    using select_all_columns [of s] by (simp add: keys)
  have "distinct (map fst p)" using assms(2) by (simp add: prepared_products_def product_columns_def)
  then have sp: "select_columns p product_columns = Inr p"
    using select_all_columns [of p] assms(2) by (simp add: prepared_products_def)
  show ?thesis by (simp add: prepare_data_def c t u ss sp)
qed

theorem prepare_data_idempotent_witness:
  "prepared_sales narrowed_sales \<and> prepared_products narrowed_products
   \<and> prepare_data iso_conv narrowed_sales narrowed_products =
       \<lparr>sales_arg = narrowed_sales, product_arg = narrowed_products,
        returned = Inr (narrowed_sales, narrowed_products)\<rparr>"
proof -
  have s: "prepared_sales narrowed_sales"
    by (simp add: prepared_sales_def narrowed_sales_def sales_columns_def is_datetime_def)
  have p: "prepared_products narrowed_products"
    by (simp add: prepared_products_def narrowed_products_def product_columns_def)
  from s p prepare_data_idempotent [OF s p, of iso_conv] show ?thesis
    by (intro conjI)
qed

subsection \<open>The insights file\<close>






















lemma format_count_examples:
  "format_count 0 = ''0''"
  "format_count 2 = ''2''"
  "format_count 3 = ''3''"
  "format_count 1234567 = ''1,234,567''"
  by (simp_all add: format_count_def group_thousands_def render_simps)



lemma insights_dict_example:
  "insights_dict ops three_orders four_products =
     Inr \<lparr>total_sales = Fin 225, total_orders = 3, avg_order_value = Fin 75,
          avg_product_price = Fin (757 / 2), most_expensive_product = ''B''\<rparr>"
  by (simp add: insights_dict_four_products three_orders_sum)
     (simp add: three_orders_def four_products_def order_of_def product_of_def nanmean_examples)

lemma insights_text_example:
  "generate_insights ops Map.empty three_orders four_products =
     Inr [''insights.txt'' \<mapsto>
       ''Key Business Insights:'' @ newline @ newline
       @ ''Total Sales: $225.00'' @ newline
       @ ''Total Orders: 3'' @ newline
       @ ''Average Order Value: $75.00'' @ newline
       @ ''Average Product Price: $378.50'' @ newline
       @ ''Most Expensive Product: B'' @ newline]"
  by (simp add: generate_insights_def insights_dict_example insights_text_def
      format_amount_examples format_count_examples)




subsection \<open>Empty tables\<close>

text \<open>
  C4, as the claim states it, fails: with an empty product table insight extraction
  raises, it produces no result.
\<close>

theorem empty_products_counterexample:
  "generate_insights sample_ops Map.empty three_orders [] = Inl ValueError"
  by (simp add: generate_insights_def insights_dict_def idxmax_def)

text \<open>
  C4, amended. When the product table is empty, insight extraction raises the value error
  of the maximum of an empty column, whatever the order table holds; the dictionary is
  not built and the insights file is not written.
\<close>

theorem empty_products_raise:
  "insights_dict ops sales_data [] = Inl ValueError
   \<and> generate_insights ops fs sales_data [] = Inl ValueError"
  by (simp add: generate_insights_def insights_dict_def idxmax_def)

text \<open>
  C6. For a product table that is not empty, insight extraction builds its dictionary and
  the total orders entry is the number of rows of the order table.
\<close>

theorem total_orders_row_count:
  assumes "product_data \<noteq> []"
  shows "\<exists>ins. insights_dict ops sales_data product_data = Inr ins
           \<and> total_orders ins = length sales_data"
  using insights_dict_nonempty [OF assms, of ops sales_data] by auto

theorem total_orders_row_count_witness:
  "four_products \<noteq> [] \<and>
   (\<exists>ins. insights_dict sample_ops three_orders four_products = Inr ins
      \<and> total_orders ins = length three_orders)"
proof -
  have ne: "four_products \<noteq> []" by (simp add: four_products_def)
  from ne total_orders_row_count [OF ne, of sample_ops three_orders] show ?thesis
    by (rule conjI)
qed

lemma empty_column: "nansum inexact [] = Fin 0" "nanmean ops [] = NaN"
  by (simp_all add: nansum_def nanmean_def present_def exact_vals_def)

text \<open>
  C10. For an order table with no rows and a product table that is not empty, insight
  extraction does not fail: the total sales are 0, the number of orders is 0, the mean
  order value is undefined, and the insights file is written from these.
\<close>

theorem empty_orders_zero_totals:
  assumes "product_data \<noteq> []"
  shows "\<exists>ins. insights_dict ops [] product_data = Inr ins
           \<and> total_sales ins = Fin 0 \<and> total_orders ins = 0 \<and> avg_order_value ins = NaN
           \<and> generate_insights ops fs [] product_data
               = Inr (fs(''insights.txt'' \<mapsto> insights_text ins))"
  using insights_dict_nonempty [OF assms, of ops "[]"]
  by (auto simp: empty_column generate_insights_def)

theorem empty_orders_zero_totals_witness:
  "four_products \<noteq> [] \<and>
   (\<exists>ins. insights_dict sample_ops [] four_products = Inr ins
           \<and> total_sales ins = Fin 0 \<and> total_orders ins = 0 \<and> avg_order_value ins = NaN
           \<and> generate_insights sample_ops Map.empty [] four_products
               = Inr [''insights.txt'' \<mapsto> insights_text ins])"
proof -
  have ne: "four_products \<noteq> []" by (simp add: four_products_def)
  from ne empty_orders_zero_totals [OF ne, of sample_ops Map.empty] show ?thesis
    by (rule conjI)
qed

end
